theory Spec2Isabelle
  imports Main
begin

section \<open>Terminal colouring (module level of SeatBookingSystem.py)\<close>

text \<open>
  The escape character of the ANSI codes is byte 27; a line feed is byte 10.
\<close>

definition ESC :: char where
  "ESC = CHR 0x1B"

definition NL :: char where
  "NL = CHR 0x0A"

definition ANSI_ESCAPE :: string where
  "ANSI_ESCAPE = ESC # ''[39m''"

definition TEXT_COLORS :: "(string \<times> string) list" where
  "TEXT_COLORS =
     [(''black'', ESC # ''[30m''), (''dark_blue'', ESC # ''[34m''),
      (''dark_green'', ESC # ''[32m''), (''dark_aqua'', ESC # ''[36m''),
      (''dark_red'', ESC # ''[31m''), (''dark_purple'', ESC # ''[35m''),
      (''gold'', ESC # ''[33m''), (''gray'', ESC # ''[37m''),
      (''dark_gray'', ESC # ''[90m''), (''blue'', ESC # ''[94m''),
      (''green'', ESC # ''[92m''), (''aqua'', ESC # ''[96m''),
      (''red'', ESC # ''[91m''), (''light_purple'', ESC # ''[95m''),
      (''yellow'', ESC # ''[93m''), (''white'', ESC # ''[97m'')]"

text \<open>
  Every \<open>raise\<close> of the module and every exception its indexing can throw is a value.
  \<open>MissingCoordinate\<close> is the plain \<open>Exception\<close> of \<open>is_seat_valid\<close>
  ("Row and column must have a number!").
\<close>

datatype error = ValueError | IndexError | KeyError | MissingCoordinate

definition TextColor :: "string \<Rightarrow> string \<Rightarrow> bool \<Rightarrow> error + string" where
  "TextColor text color continuous =
     (case map_of TEXT_COLORS color of
        Some code \<Rightarrow> Inr (code @ text @ (if continuous then ANSI_ESCAPE else []))
      | None \<Rightarrow> Inl ValueError)"

section \<open>The booking system's state\<close>

text \<open>
  A booking is the dictionary stored under a reference by \<open>book_seat\<close>.
\<close>

record booking =
  passport_number :: string
  first_name :: string
  last_name :: string
  seat_row :: int
  seat_column :: int

text \<open>
  \<open>self.seating\<close> is a Python list of row objects. Two entries of the outer list may be
  the same object, so the rows live in a store: \<open>seating\<close> holds the address of each row
  and \<open>heap\<close> the row stored at an address. A cell is the Python string of the source:
  \<open>''F''\<close> (free), \<open>''X''\<close> (aisle), \<open>''S''\<close> (storage) or a booking reference.
  \<open>self.bookings\<close> is the dictionary from reference to booking.
\<close>

type_synonym addr = nat

record system =
  seating :: "addr list"
  heap :: "addr \<Rightarrow> string list"
  bookings :: "string \<rightharpoonup> booking"

text \<open>
  \<open>__init__\<close>: the comprehension allocates seven fresh rows of four \<open>'F'\<close> (addresses
  0 to 6); \<open>self.seating[3] = ['X', 'X', 'X', 'X']\<close> stores a new row (address 7) at index
  3; \<open>self.seating[5:7] = [['F', 'F', 'S', 'S']] * 2\<close> allocates ONE row (address 8) and
  the repetition puts that same object at indices 5 and 6.
\<close>

definition init_system :: system where
  "init_system =
     (let heap0 = (\<lambda>a. if a < 7 then replicate 4 ''F'' else []);
          seating0 = [0 ..< 7];
          heap1 = heap0(7 := [''X'', ''X'', ''X'', ''X'']);
          seating1 = seating0[3 := 7];
          heap2 = heap1(8 := [''F'', ''F'', ''S'', ''S'']);
          seating2 = take 5 seating1 @ replicate 2 8 @ drop 7 seating1
      in \<lparr>seating = seating2, heap = heap2, bookings = Map.empty\<rparr>)"

section \<open>Python list indexing\<close>

text \<open>
  \<open>xs[i]\<close> for an integer \<open>i\<close>: an index from \<open>0\<close> to \<open>len - 1\<close> is itself, an index
  from \<open>-len\<close> to \<open>-1\<close> counts from the end, anything else raises IndexError
  (\<open>None\<close> here; the callers turn it into the error).
\<close>

definition py_index :: "'a list \<Rightarrow> int \<Rightarrow> nat option" where
  "py_index xs i =
     (let n = int (length xs)
      in if 0 \<le> i \<and> i < n then Some (nat i)
         else if - n \<le> i \<and> i < 0 then Some (nat (n + i))
         else None)"

text \<open>\<open>self.seating[row][column]\<close> as an expression.\<close>

definition seat_at :: "system \<Rightarrow> int \<Rightarrow> int \<Rightarrow> error + string" where
  "seat_at s row column =
     (case py_index (seating s) row of
        None \<Rightarrow> Inl IndexError
      | Some i \<Rightarrow>
          (case py_index (heap s (seating s ! i)) column of
             None \<Rightarrow> Inl IndexError
           | Some j \<Rightarrow> Inr (heap s (seating s ! i) ! j)))"

text \<open>
  \<open>self.seating[row][column] = v\<close>: the row object found at \<open>row\<close> is updated in place,
  so every index of \<open>seating\<close> that holds the same object sees the new cell.
\<close>

definition set_seat :: "system \<Rightarrow> int \<Rightarrow> int \<Rightarrow> string \<Rightarrow> error + system" where
  "set_seat s row column v =
     (case py_index (seating s) row of
        None \<Rightarrow> Inl IndexError
      | Some i \<Rightarrow>
          (case py_index (heap s (seating s ! i)) column of
             None \<Rightarrow> Inl IndexError
           | Some j \<Rightarrow>
               Inr (s\<lparr>heap := (heap s)(seating s ! i := (heap s (seating s ! i))[j := v])\<rparr>)))"

section \<open>Reference generation\<close>

text \<open>
  \<open>string.ascii_uppercase + string.digits\<close>.
\<close>

definition alphabet :: string where
  "alphabet = ''ABCDEFGHIJKLMNOPQRSTUVWXYZ'' @ ''0123456789''"

text \<open>
  The pseudo-random source is the sequence of its raw outputs, \<open>rnd 0, rnd 1, ...\<close>, and
  a position in it. \<open>''.join(random.choices(alphabet, k=8))\<close> reads the next eight outputs
  and picks for each one the element of the population it selects.
\<close>

type_synonym rng = "nat \<Rightarrow> nat"

definition random_reference :: "rng \<Rightarrow> nat \<Rightarrow> string" where
  "random_reference rnd pos =
     map (\<lambda>i. alphabet ! (rnd i mod length alphabet)) [pos ..< pos + 8]"

text \<open>
  \<open>generate_unique_booking_reference\<close>: the \<open>while True\<close> loop draws until the draw is
  not a key of \<open>self.bookings\<close>. A run that never leaves the loop is \<open>None\<close>. The result
  carries the position of the source after the call.
\<close>

partial_function (option) generate_unique_booking_reference ::
  "rng \<Rightarrow> system \<Rightarrow> nat \<Rightarrow> (string \<times> nat) option" where
  "generate_unique_booking_reference rnd s pos =
     (if bookings s (random_reference rnd pos) = None
      then Some (random_reference rnd pos, pos + 8)
      else generate_unique_booking_reference rnd s (pos + 8))"

section \<open>The operations of SeatBookingSystem\<close>

definition is_seat_valid ::
  "system \<Rightarrow> int option \<Rightarrow> int option \<Rightarrow> string option \<Rightarrow> error + bool" where
  "is_seat_valid s row column seat =
     (case seat of
        Some v \<Rightarrow> Inr (v \<notin> set [''X'', ''S''])
      | None \<Rightarrow>
          (case row of
             None \<Rightarrow> Inl MissingCoordinate
           | Some r \<Rightarrow>
               (case column of
                  None \<Rightarrow> Inl MissingCoordinate
                | Some c \<Rightarrow>
                    (case seat_at s r c of
                       Inr v \<Rightarrow> Inr (v \<notin> set [''X'', ''S''])
                     | Inl e \<Rightarrow> (if e = IndexError then Inr False else Inl e)))))"

definition check_availability :: "system \<Rightarrow> int \<Rightarrow> int \<Rightarrow> error + string" where
  "check_availability s row column =
     (case is_seat_valid s (Some row) (Some column) None of
        Inl e \<Rightarrow> Inl e
      | Inr valid \<Rightarrow>
          if \<not> valid then TextColor ''Invalid seat selection.'' ''red'' True
          else
            (case seat_at s row column of
               Inl e \<Rightarrow> Inl e
             | Inr seat \<Rightarrow>
                 if seat = ''F'' then TextColor ''Seat is available'' ''green'' True
                 else
                   (case TextColor (''Seat is taken.'' @ NL # ''---INFO---'') ''yellow'' False of
                      Inl e \<Rightarrow> Inl e
                    | Inr banner \<Rightarrow>
                        (case bookings s seat of
                           None \<Rightarrow> Inl KeyError
                         | Some b \<Rightarrow>
                             (case TextColor '''' ''white'' True of
                                Inl e \<Rightarrow> Inl e
                              | Inr reset \<Rightarrow>
                                  Inr (banner @
                                       (NL # ''Reference Number: '' @ seat @
                                        NL # ''Passport Number: '' @ passport_number b @
                                        NL # ''First Name: '' @ first_name b @
                                        NL # ''Last Name: '' @ last_name b) @
                                       reset))))))"

text \<open>
  \<open>book_seat\<close> returns its message (or the exception), the state it leaves and the
  position of the random source; \<open>None\<close> when reference generation never returns.
  The \<open>or\<close> of the guard is short-circuit: the cell is read only when the seat is valid.
\<close>

definition book_seat ::
  "rng \<Rightarrow> nat \<Rightarrow> system \<Rightarrow> int \<Rightarrow> int \<Rightarrow> string \<Rightarrow> string \<Rightarrow> string \<Rightarrow>
   ((error + string) \<times> system \<times> nat) option" where
  "book_seat rnd pos s row column passport_number' first_name' last_name' =
     (case is_seat_valid s (Some row) (Some column) None of
        Inl e \<Rightarrow> Some (Inl e, s, pos)
      | Inr valid \<Rightarrow>
          if \<not> valid then Some (TextColor ''Seat cannot be booked.'' ''red'' True, s, pos)
          else
            (case seat_at s row column of
               Inl e \<Rightarrow> Some (Inl e, s, pos)
             | Inr seat \<Rightarrow>
                 if seat \<noteq> ''F''
                 then Some (TextColor ''Seat cannot be booked.'' ''red'' True, s, pos)
                 else
                   (case generate_unique_booking_reference rnd s pos of
                      None \<Rightarrow> None
                    | Some (booking_reference, pos') \<Rightarrow>
                        (case set_seat s row column booking_reference of
                           Inl e \<Rightarrow> Some (Inl e, s, pos')
                         | Inr s1 \<Rightarrow>
                             Some (TextColor (''Seat booked successfully with reference '' @
                                              booking_reference @ ''.'') ''green'' True,
                                   s1\<lparr>bookings := (bookings s1)(booking_reference \<mapsto>
                                          \<lparr>passport_number = passport_number',
                                           first_name = first_name',
                                           last_name = last_name',
                                           seat_row = row,
                                           seat_column = column\<rparr>)\<rparr>,
                                   pos')))))"

text \<open>
  \<open>free_seat\<close> returns its message (or the exception) and the state it leaves.
\<close>

definition free_seat :: "system \<Rightarrow> int \<Rightarrow> int \<Rightarrow> (error + string) \<times> system" where
  "free_seat s row column =
     (case is_seat_valid s (Some row) (Some column) None of
        Inl e \<Rightarrow> (Inl e, s)
      | Inr valid \<Rightarrow>
          if \<not> valid
          then (TextColor ''Seat is already free or cannot be freed.'' ''yellow'' True, s)
          else
            (case seat_at s row column of
               Inl e \<Rightarrow> (Inl e, s)
             | Inr booking_reference \<Rightarrow>
                 if booking_reference = ''F''
                 then (TextColor ''Seat is already free or cannot be freed.'' ''yellow'' True, s)
                 else if bookings s booking_reference \<noteq> None
                 then
                   (case set_seat (s\<lparr>bookings := (bookings s)(booking_reference := None)\<rparr>)
                           row column ''F'' of
                      Inl e \<Rightarrow> (Inl e, s\<lparr>bookings := (bookings s)(booking_reference := None)\<rparr>)
                    | Inr s2 \<Rightarrow> (TextColor ''Seat has been freed.'' ''green'' True, s2))
                 else (TextColor ''Booking reference not found.'' ''red'' True, s)))"

section \<open>The results the operations return\<close>

text \<open>
  The operations return coloured messages. Each result the properties speak of is the
  message of one return statement: \<open>Invalid\<close>, \<open>Available\<close> and \<open>Taken\<close> of
  \<open>check_availability\<close>; \<open>SeatUnavailable\<close> and \<open>Booked\<close> of \<open>book_seat\<close>;
  \<open>AlreadyFreeOrInvalid\<close>, \<open>Freed\<close> and \<open>BookingNotFound\<close> of \<open>free_seat\<close>.
\<close>

definition Invalid :: "error + string" where
  "Invalid = TextColor ''Invalid seat selection.'' ''red'' True"

definition Available :: "error + string" where
  "Available = TextColor ''Seat is available'' ''green'' True"

definition Taken :: "string \<Rightarrow> string \<Rightarrow> string \<Rightarrow> string \<Rightarrow> error + string" where
  "Taken reference passport_number' first_name' last_name' =
     Inr ((ESC # ''[93m'') @ ''Seat is taken.'' @ NL # ''---INFO---'' @
          NL # ''Reference Number: '' @ reference @
          NL # ''Passport Number: '' @ passport_number' @
          NL # ''First Name: '' @ first_name' @
          NL # ''Last Name: '' @ last_name' @
          (ESC # ''[97m'') @ ANSI_ESCAPE)"

definition SeatUnavailable :: "error + string" where
  "SeatUnavailable = TextColor ''Seat cannot be booked.'' ''red'' True"

definition Booked :: "string \<Rightarrow> error + string" where
  "Booked reference =
     TextColor (''Seat booked successfully with reference '' @ reference @ ''.'') ''green'' True"

definition AlreadyFreeOrInvalid :: "error + string" where
  "AlreadyFreeOrInvalid = TextColor ''Seat is already free or cannot be freed.'' ''yellow'' True"

definition Freed :: "error + string" where
  "Freed = TextColor ''Seat has been freed.'' ''green'' True"

definition BookingNotFound :: "error + string" where
  "BookingNotFound = TextColor ''Booking reference not found.'' ''red'' True"

section \<open>Reachable states, sequences of references, cells holding a value\<close>

text \<open>
  The states the object can be in: the constructed one, and any state a call of
  \<open>book_seat\<close> or \<open>free_seat\<close> leaves, with any arguments and any random source.
  \<open>check_availability\<close> and \<open>is_seat_valid\<close> change nothing.
\<close>

inductive reachable :: "system \<Rightarrow> bool" where
  constructed: "reachable init_system"
| booked:
    "reachable s \<Longrightarrow>
     book_seat rnd pos s row column passport_number' first_name' last_name' =
       Some (res, s', pos') \<Longrightarrow>
     reachable s'"
| freed: "reachable s \<Longrightarrow> free_seat s row column = (res, s') \<Longrightarrow> reachable s'"

text \<open>
  Generating \<open>n\<close> references one after the other, each one recorded in the ledger
  (under the booking \<open>b\<close>) before the next is drawn, as successive bookings do.
\<close>

fun generate_sequence ::
  "rng \<Rightarrow> nat \<Rightarrow> booking \<Rightarrow> system \<Rightarrow> nat \<Rightarrow> (string list \<times> system \<times> nat) option" where
  "generate_sequence rnd 0 b s pos = Some ([], s, pos)"
| "generate_sequence rnd (Suc n) b s pos =
     (case generate_unique_booking_reference rnd s pos of
        None \<Rightarrow> None
      | Some (reference, pos') \<Rightarrow>
          (case generate_sequence rnd n b (s\<lparr>bookings := (bookings s)(reference \<mapsto> b)\<rparr>) pos' of
             None \<Rightarrow> None
           | Some (references, s', pos'') \<Rightarrow> Some (reference # references, s', pos'')))"

text \<open>
  The grid positions (index of the row in \<open>seating\<close>, index of the cell in the row)
  whose cell is \<open>v\<close>, in row-major order.
\<close>

definition cells_holding :: "system \<Rightarrow> string \<Rightarrow> (nat \<times> nat) list" where
  "cells_holding s v =
     concat (map (\<lambda>i. map (\<lambda>j. (i, j))
                          (filter (\<lambda>j. heap s (seating s ! i) ! j = v)
                                  [0 ..< length (heap s (seating s ! i))]))
                 [0 ..< length (seating s)])"

text \<open>
  The correspondence of grid and ledger, stated on the row objects: every cell of a row
  of the grid is a marker (\<open>''F''\<close>, \<open>''X''\<close>, \<open>''S''\<close>) or an 8-character key of the
  ledger; every key of the ledger has 8 characters and is the value of some cell; and no
  two different cells of the row objects hold the same 8-character value.
\<close>

definition cell_ok :: "system \<Rightarrow> string \<Rightarrow> bool" where
  "cell_ok s v = (if v \<in> set [''F'', ''X'', ''S''] then True
                  else length v = 8 \<and> bookings s v \<noteq> None)"

definition grid_ledger_inv :: "system \<Rightarrow> bool" where
  "grid_ledger_inv s \<longleftrightarrow>
     (\<forall>a \<in> set (seating s). \<forall>j < length (heap s a). cell_ok s (heap s a ! j)) \<and>
     (\<forall>r \<in> dom (bookings s).
        length r = 8 \<and> (\<exists>a \<in> set (seating s). \<exists>j < length (heap s a). heap s a ! j = r)) \<and>
     (\<forall>a \<in> set (seating s). \<forall>a' \<in> set (seating s).
        \<forall>j < length (heap s a). \<forall>j' < length (heap s a').
          heap s a ! j = heap s a' ! j' \<and> length (heap s a ! j) = 8 \<longrightarrow> a = a' \<and> j = j')"

section \<open>Basic facts\<close>

subsection \<open>Reading and writing a cell\<close>

lemma py_index_bound: "py_index xs i = Some k \<Longrightarrow> k < length xs"
  by (auto simp: py_index_def Let_def split: if_splits)

lemma seat_at_cases:
  "seat_at s row column = Inl IndexError \<or> (\<exists>v. seat_at s row column = Inr v)"
  by (simp add: seat_at_def split: option.split)

lemma seat_at_Inr_iff:
  "seat_at s row column = Inr v \<longleftrightarrow>
     (\<exists>i j. py_index (seating s) row = Some i \<and>
            py_index (heap s (seating s ! i)) column = Some j \<and>
            heap s (seating s ! i) ! j = v)"
  by (auto simp: seat_at_def split: option.splits)

lemma py_index_list_update [simp]: "py_index (xs[j := v]) i = py_index xs i"
  by (simp add: py_index_def)

lemma set_seat_of_seat_at:
  assumes "seat_at s row column = Inr x"
  shows "\<exists>s1. set_seat s row column v = Inr s1 \<and> seat_at s1 row column = Inr v \<and>
           seating s1 = seating s \<and> bookings s1 = bookings s"
proof -
  from assms obtain i j where i: "py_index (seating s) row = Some i"
    and j: "py_index (heap s (seating s ! i)) column = Some j"
    by (auto simp: seat_at_Inr_iff)
  from j have "j < length (heap s (seating s ! i))" by (rule py_index_bound)
  with i j show ?thesis by (simp add: set_seat_def seat_at_def)
qed

lemma seat_at_bookings_update [simp]:
  "seat_at (s\<lparr>bookings := m\<rparr>) row column = seat_at s row column"
  by (simp add: seat_at_def split: option.split)

lemma set_seat_bookings_update:
  "set_seat (s\<lparr>bookings := m\<rparr>) row column v =
     map_sum id (\<lambda>s1. s1\<lparr>bookings := m\<rparr>) (set_seat s row column v)"
  by (simp add: set_seat_def split: option.split)

lemma set_seat_seating: "set_seat s row column v = Inr s1 \<Longrightarrow> seating s1 = seating s"
  by (auto simp: set_seat_def split: option.splits)

subsection \<open>The messages\<close>

lemma TextColor_red: "TextColor t ''red'' c = Inr ((ESC # ''[91m'') @ t @ (if c then ANSI_ESCAPE else []))"
  by (simp add: TextColor_def TEXT_COLORS_def)

lemma TextColor_green: "TextColor t ''green'' c = Inr ((ESC # ''[92m'') @ t @ (if c then ANSI_ESCAPE else []))"
  by (simp add: TextColor_def TEXT_COLORS_def)

lemma TextColor_yellow: "TextColor t ''yellow'' c = Inr ((ESC # ''[93m'') @ t @ (if c then ANSI_ESCAPE else []))"
  by (simp add: TextColor_def TEXT_COLORS_def)

lemma TextColor_white: "TextColor t ''white'' c = Inr ((ESC # ''[97m'') @ t @ (if c then ANSI_ESCAPE else []))"
  by (simp add: TextColor_def TEXT_COLORS_def)

lemmas TextColor_known = TextColor_red TextColor_green TextColor_yellow TextColor_white

lemma Booked_inject: "Booked r = Booked r' \<longleftrightarrow> r = r'"
  by (simp add: Booked_def TextColor_green)

lemma Booked_not_SeatUnavailable: "Booked r \<noteq> SeatUnavailable"
  by (simp add: Booked_def SeatUnavailable_def TextColor_known)

lemma Booked_not_error: "Booked r \<noteq> Inl e"
  by (simp add: Booked_def TextColor_known)

lemma free_results_distinct:
  "Freed \<noteq> AlreadyFreeOrInvalid" "Freed \<noteq> BookingNotFound" "AlreadyFreeOrInvalid \<noteq> BookingNotFound"
  "Freed \<noteq> Inl e" 
  by (simp_all add: Freed_def AlreadyFreeOrInvalid_def BookingNotFound_def TextColor_known)

lemma check_results_distinct:
  "Invalid \<noteq> Available" "Invalid \<noteq> Taken r p f l" "Available \<noteq> Taken r p f l"
  by (simp_all add: Invalid_def Available_def Taken_def TextColor_known)

subsection \<open>The operations, by the cell they address\<close>

text \<open>
  With integer coordinates the validity check is decided by the cell lookup alone, and
  so is each operation: the lemmas below restate the three operations as a case
  distinction on \<open>seat_at\<close>.
\<close>

lemma is_seat_valid_seat_at:
  "is_seat_valid s (Some row) (Some column) None =
     (case seat_at s row column of
        Inr v \<Rightarrow> Inr (v \<noteq> ''X'' \<and> v \<noteq> ''S'')
      | Inl e \<Rightarrow> Inr False)"
  using seat_at_cases[of s row column]
  by (auto simp: is_seat_valid_def)

lemma check_availability_free:
  "seat_at s row column = Inr ''F'' \<Longrightarrow> check_availability s row column = Available"
  by (simp add: check_availability_def is_seat_valid_seat_at Available_def)

lemma check_availability_invalid:
  "seat_at s row column = Inl e \<Longrightarrow> check_availability s row column = Invalid"
  by (simp add: check_availability_def is_seat_valid_seat_at Invalid_def)

lemma check_availability_taken:
  assumes "seat_at s row column = Inr r" "r \<noteq> ''F''" "r \<noteq> ''X''" "r \<noteq> ''S''"
    and "bookings s r = Some b"
  shows "check_availability s row column =
           Taken r (passport_number b) (first_name b) (last_name b)"
  using assms
  by (simp add: check_availability_def is_seat_valid_seat_at Taken_def TextColor_known)

lemma free_seat_by_cell:
  "free_seat s row column =
     (case seat_at s row column of
        Inl e \<Rightarrow> (AlreadyFreeOrInvalid, s)
      | Inr r \<Rightarrow>
          if r = ''X'' \<or> r = ''S'' \<or> r = ''F'' then (AlreadyFreeOrInvalid, s)
          else if bookings s r = None then (BookingNotFound, s)
          else (case set_seat (s\<lparr>bookings := (bookings s)(r := None)\<rparr>) row column ''F'' of
                  Inl e \<Rightarrow> (Inl e, s\<lparr>bookings := (bookings s)(r := None)\<rparr>)
                | Inr s2 \<Rightarrow> (Freed, s2)))"
  by (auto simp: free_seat_def is_seat_valid_seat_at AlreadyFreeOrInvalid_def
      BookingNotFound_def Freed_def split: sum.split)

lemma book_seat_by_cell:
  "book_seat rnd pos s row column p f l =
     (if seat_at s row column \<noteq> Inr ''F'' then Some (SeatUnavailable, s, pos)
      else (case generate_unique_booking_reference rnd s pos of
              None \<Rightarrow> None
            | Some (r, pos') \<Rightarrow>
                (case set_seat s row column r of
                   Inl e \<Rightarrow> Some (Inl e, s, pos')
                 | Inr s1 \<Rightarrow>
                     Some (Booked r,
                           s1\<lparr>bookings := (bookings s1)(r \<mapsto>
                                 \<lparr>passport_number = p, first_name = f, last_name = l,
                                  seat_row = row, seat_column = column\<rparr>)\<rparr>,
                           pos'))))"
  by (auto simp: book_seat_def is_seat_valid_seat_at SeatUnavailable_def Booked_def
      split: sum.split option.split)

subsection \<open>The reference generator\<close>

lemma length_random_reference: "length (random_reference rnd pos) = 8"
  by (simp add: random_reference_def)

lemma length_alphabet: "length alphabet = 36"
  by (simp add: alphabet_def)

lemma set_random_reference: "set (random_reference rnd pos) \<subseteq> set alphabet"
  by (auto simp: random_reference_def length_alphabet)

lemma reference_not_marker:
  "length r = 8 \<Longrightarrow> r \<noteq> ''F'' \<and> r \<noteq> ''X'' \<and> r \<noteq> ''S''"
  by auto

text \<open>
  What a returning run of the loop returns: a draw that is not a key of the ledger, made
  at some attempt \<open>n\<close>, with the source advanced past it.
\<close>

lemma gen_result_pair:
  assumes "generate_unique_booking_reference rnd s pos = Some y"
  shows "bookings s (fst y) = None \<and>
     (\<exists>n. fst y = random_reference rnd (pos + 8 * n) \<and> snd y = pos + 8 * Suc n)"
proof (rule generate_unique_booking_reference.raw_induct
    [where P = "\<lambda>rnd s pos y. bookings s (fst y) = None \<and>
       (\<exists>n. fst y = random_reference rnd (pos + 8 * n) \<and> snd y = pos + 8 * Suc n)",
     OF _ assms])
  fix gen :: "rng \<Rightarrow> system \<Rightarrow> nat \<Rightarrow> (string \<times> nat) option"
    and rnd s pos y
  assume IH: "\<And>rnd s pos y. gen rnd s pos = Some y \<Longrightarrow>
      bookings s (fst y) = None \<and>
      (\<exists>n. fst y = random_reference rnd (pos + 8 * n) \<and> snd y = pos + 8 * Suc n)"
    and eq: "(if bookings s (random_reference rnd pos) = None
        then Some (random_reference rnd pos, pos + 8) else gen rnd s (pos + 8)) = Some y"
  show "bookings s (fst y) = None \<and>
      (\<exists>n. fst y = random_reference rnd (pos + 8 * n) \<and> snd y = pos + 8 * Suc n)"
  proof (cases "bookings s (random_reference rnd pos) = None")
    case True
    with eq have "y = (random_reference rnd pos, pos + 8)" by simp
    with True show ?thesis by (intro conjI exI[of _ 0]) auto
  next
    case False
    with eq have "gen rnd s (pos + 8) = Some y" by simp
    from IH[OF this] obtain n where
      "bookings s (fst y) = None" "fst y = random_reference rnd (pos + 8 + 8 * n)"
      "snd y = pos + 8 + 8 * Suc n" by auto
    then show ?thesis by (intro conjI exI[of _ "Suc n"]) (auto simp: algebra_simps)
  qed
qed

lemma gen_result:
  "generate_unique_booking_reference rnd s pos = Some (reference, pos') \<Longrightarrow>
     bookings s reference = None \<and>
     (\<exists>n. reference = random_reference rnd (pos + 8 * n) \<and> pos' = pos + 8 * Suc n)"
  using gen_result_pair[of rnd s pos "(reference, pos')"] by simp

lemma gen_length:
  "generate_unique_booking_reference rnd s pos = Some (reference, pos') \<Longrightarrow> length reference = 8"
  using gen_result[of rnd s pos reference pos'] by (auto simp: length_random_reference)

text \<open>
  The loop returns as soon as some attempt draws a string that is not a key.
\<close>

lemma gen_terminates:
  "bookings s (random_reference rnd (pos + 8 * n)) = None \<Longrightarrow>
     \<exists>reference pos'. generate_unique_booking_reference rnd s pos = Some (reference, pos')"
proof (induction n arbitrary: pos)
  case 0
  then show ?case by (subst generate_unique_booking_reference.simps) simp
next
  case (Suc n)
  have "bookings s (random_reference rnd ((pos + 8) + 8 * n)) = None"
    using Suc.prems by (simp add: algebra_simps)
  from Suc.IH[OF this] show ?case
    by (subst generate_unique_booking_reference.simps) auto
qed

lemma generate_sequence_refs:
  "generate_sequence rnd n b s pos = Some (refs, s', pos') \<Longrightarrow>
     length refs = n \<and> distinct refs \<and>
     (\<forall>r \<in> set refs. length r = 8 \<and> set r \<subseteq> set alphabet \<and> bookings s r = None) \<and>
     dom (bookings s') = dom (bookings s) \<union> set refs"
proof (induction n arbitrary: s pos refs s' pos')
  case 0
  then show ?case by simp
next
  case (Suc n)
  from Suc.prems obtain r p1 where
    gen: "generate_unique_booking_reference rnd s pos = Some (r, p1)"
    by (auto split: option.splits)
  let ?s1 = "s\<lparr>bookings := (bookings s)(r \<mapsto> b)\<rparr>"
  from Suc.prems gen obtain rest where
    rest: "generate_sequence rnd n b ?s1 p1 = Some (rest, s', pos')" and refs: "refs = r # rest"
    by (auto split: option.splits)
  from gen_result[OF gen] obtain k where
    fresh: "bookings s r = None" and r: "r = random_reference rnd (pos + 8 * k)" by blast
  from Suc.IH[OF rest] have
    len: "length rest = n"
    and d: "distinct rest"
    and each: "\<forall>x \<in> set rest. length x = 8 \<and> set x \<subseteq> set alphabet \<and> bookings ?s1 x = None"
    and dm: "dom (bookings s') = dom (bookings ?s1) \<union> set rest" by auto
  have notin: "r \<notin> set rest"
  proof
    assume "r \<in> set rest"
    with each have "bookings ?s1 r = None" by blast
    then show False by simp
  qed
  have "\<forall>x \<in> set rest. bookings s x = None"
  proof
    fix x assume "x \<in> set rest"
    with each have "bookings ?s1 x = None" by blast
    then show "bookings s x = None" by (simp split: if_splits)
  qed
  with len d each notin fresh r refs dm show ?case
    by (auto simp: length_random_reference set_random_reference[THEN subsetD])
qed

subsection \<open>What the operations preserve and establish\<close>

lemma book_seat_seating:
  assumes "book_seat rnd pos s row column p f l = Some (res, s', pos')"
  shows "seating s' = seating s"
proof (cases "seat_at s row column = Inr ''F''")
  case False
  with assms show ?thesis by (simp add: book_seat_by_cell)
next
  case True
  with assms obtain r where
    gen: "generate_unique_booking_reference rnd s pos = Some (r, pos')"
    by (auto simp: book_seat_by_cell split: option.splits sum.splits)
  from set_seat_of_seat_at[OF True, of r] obtain s1 where
    s1: "set_seat s row column r = Inr s1" "seating s1 = seating s" by blast
  with assms True gen show ?thesis by (auto simp: book_seat_by_cell)
qed

lemma free_seat_seating:
  assumes "free_seat s row column = (res, s')"
  shows "seating s' = seating s"
proof (cases "seat_at s row column")
  case (Inl e)
  with assms show ?thesis by (simp add: free_seat_by_cell)
next
  case (Inr r)
  let ?s0 = "s\<lparr>bookings := (bookings s)(r := None)\<rparr>"
  have "seat_at ?s0 row column = Inr r" using Inr by simp
  from set_seat_of_seat_at[OF this, of "''F''"] obtain s2 where
    s2: "set_seat ?s0 row column ''F'' = Inr s2" "seating s2 = seating ?s0" by blast
  with assms Inr show ?thesis by (auto simp: free_seat_by_cell split: if_splits)
qed

lemma book_seat_success:
  assumes "book_seat rnd pos s row column p f l = Some (Booked r, s', pos')"
  shows "seat_at s' row column = Inr r \<and> length r = 8 \<and>
         bookings s' r = Some \<lparr>passport_number = p, first_name = f, last_name = l,
                                seat_row = row, seat_column = column\<rparr>"
proof -
  from assms have free: "seat_at s row column = Inr ''F''"
    by (auto simp: book_seat_by_cell Booked_not_SeatUnavailable[symmetric] split: if_splits)
  with assms obtain r0 where gen: "generate_unique_booking_reference rnd s pos = Some (r0, pos')"
    by (auto simp: book_seat_by_cell split: option.splits sum.splits)
  from set_seat_of_seat_at[OF free, of r0] obtain s1 where
    s1: "set_seat s row column r0 = Inr s1" "seat_at s1 row column = Inr r0" by blast
  from assms free gen s1(1) have eq: "r0 = r"
    and s': "s' = s1\<lparr>bookings := (bookings s1)(r0 \<mapsto>
               \<lparr>passport_number = p, first_name = f, last_name = l,
                seat_row = row, seat_column = column\<rparr>)\<rparr>"
    by (auto simp: book_seat_by_cell Booked_inject)
  from gen have "length r0 = 8" by (rule gen_length)
  with eq s' s1(2) show ?thesis by simp
qed

lemma free_seat_success:
  assumes "free_seat s row column = (Freed, s')"
  shows "seat_at s' row column = Inr ''F'' \<and>
         (\<exists>r. seat_at s row column = Inr r \<and> bookings s' = (bookings s)(r := None))"
proof -
  from assms obtain r where r: "seat_at s row column = Inr r"
    using seat_at_cases[of s row column]
    by (auto simp: free_seat_by_cell free_results_distinct free_results_distinct[symmetric])
  let ?s0 = "s\<lparr>bookings := (bookings s)(r := None)\<rparr>"
  have "seat_at ?s0 row column = Inr r" using r by simp
  from set_seat_of_seat_at[OF this, of "''F''"] obtain s2 where
    s2: "set_seat ?s0 row column ''F'' = Inr s2" "seat_at s2 row column = Inr ''F''"
      "bookings s2 = bookings ?s0" by auto
  from assms r s2(1) have "s' = s2"
    by (auto simp: free_seat_by_cell free_results_distinct free_results_distinct[symmetric]
        split: if_splits)
  with s2 r show ?thesis by auto
qed

subsection \<open>The constructed state and the states used as examples\<close>

lemma seating_init: "seating init_system = [0, 1, 2, 7, 4, 8, 8]"
  by code_simp

lemma bookings_init: "bookings init_system = Map.empty"
  by (simp add: init_system_def Let_def)

lemma heap_init:
  "heap init_system 0 = [''F'', ''F'', ''F'', ''F'']"
  "heap init_system 1 = [''F'', ''F'', ''F'', ''F'']"
  "heap init_system 2 = [''F'', ''F'', ''F'', ''F'']"
  "heap init_system 7 = [''X'', ''X'', ''X'', ''X'']"
  "heap init_system 4 = [''F'', ''F'', ''F'', ''F'']"
  "heap init_system 8 = [''F'', ''F'', ''S'', ''S'']"
  by (simp_all add: init_system_def Let_def eval_nat_numeral)

lemma heap_init_any:
  "heap init_system a =
     (if a = 8 then [''F'', ''F'', ''S'', ''S'']
      else if a = 7 then [''X'', ''X'', ''X'', ''X'']
      else if a < 7 then [''F'', ''F'', ''F'', ''F''] else [])"
  by (simp add: init_system_def Let_def eval_nat_numeral)

lemma seat_at_init:
  "seat_at init_system 0 0 = Inr ''F''"
  "seat_at init_system 0 3 = Inr ''F''"
  "seat_at init_system 0 (-1) = Inr ''F''"
  "seat_at init_system 5 0 = Inr ''F''"
  by (simp_all add: seat_at_def py_index_def seating_init heap_init)

lemma upt7: "[0 ..< 7] = [0, 1, 2, 3, 4, 5, 6]" by code_simp

lemma upt4: "[0 ..< 4] = [0, 1, 2, 3]" by code_simp

lemma random_reference_id_0: "random_reference (\<lambda>i. i) 0 = ''ABCDEFGH''"
  by code_simp

lemma gen_id_init:
  "generate_unique_booking_reference (\<lambda>i. i) init_system 0 = Some (''ABCDEFGH'', 8)"
  by (subst generate_unique_booking_reference.simps) (simp add: bookings_init random_reference_id_0)

lemma book_5_0:
  "book_seat (\<lambda>i. i) 0 init_system 5 0 ''P123'' ''Ann'' ''Lee'' =
     Some (Booked ''ABCDEFGH'',
           init_system
             \<lparr>heap := (heap init_system)(8 := [''ABCDEFGH'', ''F'', ''S'', ''S'']),
              bookings := [''ABCDEFGH'' \<mapsto>
                 \<lparr>passport_number = ''P123'', first_name = ''Ann'', last_name = ''Lee'',
                  seat_row = 5, seat_column = 0\<rparr>]\<rparr>,
           8)"
  by (simp add: book_seat_by_cell seat_at_init gen_id_init set_seat_def py_index_def
      seating_init heap_init bookings_init)

lemma cells_5_0:
  "cells_holding
     (init_system
        \<lparr>heap := (heap init_system)(8 := [''ABCDEFGH'', ''F'', ''S'', ''S'']),
         bookings := m\<rparr>) ''ABCDEFGH'' = [(5, 0), (6, 0)]"
  by (simp add: cells_holding_def seating_init heap_init_any upt7 upt4)

lemma book_0_3:
  "book_seat (\<lambda>i. i) 0 init_system 0 3 ''P123'' ''Ann'' ''Lee'' =
     Some (Booked ''ABCDEFGH'',
           init_system
             \<lparr>heap := (heap init_system)(0 := [''F'', ''F'', ''F'', ''ABCDEFGH'']),
              bookings := [''ABCDEFGH'' \<mapsto>
                 \<lparr>passport_number = ''P123'', first_name = ''Ann'', last_name = ''Lee'',
                  seat_row = 0, seat_column = 3\<rparr>]\<rparr>,
           8)"
  by (simp add: book_seat_by_cell seat_at_init gen_id_init set_seat_def py_index_def
      seating_init heap_init bookings_init)

lemma free_5_0_and_6_0:
  "free_seat
     (init_system
        \<lparr>heap := (heap init_system)(8 := [''ABCDEFGH'', ''F'', ''S'', ''S'']),
         bookings := [''ABCDEFGH'' \<mapsto> b]\<rparr>) 5 0 =
     (Freed,
      init_system
        \<lparr>heap := (heap init_system)(8 := [''F'', ''F'', ''S'', ''S'']),
         bookings := Map.empty\<rparr>)"
  "free_seat
     (init_system
        \<lparr>heap := (heap init_system)(8 := [''ABCDEFGH'', ''F'', ''S'', ''S'']),
         bookings := [''ABCDEFGH'' \<mapsto> b]\<rparr>) 6 0 =
     (Freed,
      init_system
        \<lparr>heap := (heap init_system)(8 := [''F'', ''F'', ''S'', ''S'']),
         bookings := Map.empty\<rparr>)"
  by (simp_all add: free_seat_by_cell seat_at_def set_seat_def py_index_def seating_init)

lemma random_reference_skip:
  "random_reference (\<lambda>i. if i < 8 then i else i + 1) 0 = ''ABCDEFGH''"
  "random_reference (\<lambda>i. if i < 8 then i else i + 1) 8 = ''JKLMNOPQ''"
  by code_simp+

lemma random_reference_repeat:
  "random_reference (\<lambda>i. if i < 16 then 0 else i) 0 = ''AAAAAAAA''"
  "random_reference (\<lambda>i. if i < 16 then 0 else i) 8 = ''AAAAAAAA''"
  "random_reference (\<lambda>i. if i < 16 then 0 else i) 16 = ''QRSTUVWX''"
  by code_simp+

lemma gen_repeat_0:
  "generate_unique_booking_reference (\<lambda>i. if i < 16 then 0 else i) init_system 0 =
     Some (''AAAAAAAA'', 8)"
  by (subst generate_unique_booking_reference.simps)
    (simp add: bookings_init random_reference_repeat)

lemma gen_repeat_8:
  "generate_unique_booking_reference (\<lambda>i. if i < 16 then 0 else i)
     (init_system\<lparr>bookings := [''AAAAAAAA'' \<mapsto> b]\<rparr>) 8 = Some (''QRSTUVWX'', 24)"
  apply (subst generate_unique_booking_reference.simps)
  apply (simp add: random_reference_repeat)
  apply (subst generate_unique_booking_reference.simps)
  apply (simp add: random_reference_repeat)
  done

lemma sequence_repeat:
  "generate_sequence (\<lambda>i. if i < 16 then 0 else i) 2 b init_system 0 =
     Some ([''AAAAAAAA'', ''QRSTUVWX''],
           init_system\<lparr>bookings := [''AAAAAAAA'' \<mapsto> b, ''QRSTUVWX'' \<mapsto> b]\<rparr>, 24)"
  by (simp add: numeral_2_eq_2 gen_repeat_0 gen_repeat_8 bookings_init)

subsection \<open>Reachable states\<close>

lemma reachable_seating: "reachable s \<Longrightarrow> seating s = [0, 1, 2, 7, 4, 8, 8]"
  by (induction rule: reachable.induct)
    (simp_all add: seating_init book_seat_seating free_seat_seating)

lemma reachable_rows_5_6:
  assumes "reachable s"
  shows "seat_at s 5 c = seat_at s 6 c"
proof -
  have "py_index (seating s) 5 = Some 5" "py_index (seating s) 6 = Some 6"
    by (simp_all add: py_index_def reachable_seating[OF assms])
  moreover have "seating s ! 5 = seating s ! 6"
    by (simp add: reachable_seating[OF assms])
  ultimately show ?thesis by (simp add: seat_at_def split: option.split)
qed

subsection \<open>Grid and ledger agree on the row objects\<close>

text \<open>
  A booking writes a fresh 8-character reference into one cell of one row object and
  records it; a release clears that cell and deletes the key. Both keep the
  correspondence, so it holds in every reachable state.
\<close>

lemma set_seat_effect:
  assumes "seat_at s row column = Inr x"
  shows "\<exists>a j. a \<in> set (seating s) \<and> j < length (heap s a) \<and> heap s a ! j = x \<and>
           set_seat s row column v = Inr (s\<lparr>heap := (heap s)(a := (heap s a)[j := v])\<rparr>)"
proof -
  from assms obtain i j where i: "py_index (seating s) row = Some i"
    and j: "py_index (heap s (seating s ! i)) column = Some j"
    and x: "heap s (seating s ! i) ! j = x"
    by (auto simp: seat_at_Inr_iff)
  from i have "i < length (seating s)" by (rule py_index_bound)
  then have "seating s ! i \<in> set (seating s)" by simp
  moreover from j have "j < length (heap s (seating s ! i))" by (rule py_index_bound)
  ultimately show ?thesis using i j x by (auto simp: set_seat_def)
qed

lemma inv_book:
  assumes inv: "grid_ledger_inv s"
    and a: "a \<in> set (seating s)" and j: "j < length (heap s a)"
    and free: "heap s a ! j = ''F''"
    and fresh: "bookings s r = None" and len: "length r = 8"
  shows "grid_ledger_inv
           (s\<lparr>heap := (heap s)(a := (heap s a)[j := r]),
              bookings := (bookings s)(r \<mapsto> b)\<rparr>)"
  unfolding grid_ledger_inv_def
proof (intro conjI ballI allI impI)
  let ?s' = "s\<lparr>heap := (heap s)(a := (heap s a)[j := r]), bookings := (bookings s)(r \<mapsto> b)\<rparr>"
  note I = inv[unfolded grid_ledger_inv_def]
  { fix a' j' assume "a' \<in> set (seating ?s')" "j' < length (heap ?s' a')"
    then have m: "a' \<in> set (seating s)" "j' < length (heap s a')" by (auto split: if_splits)
    with I have ok: "cell_ok s (heap s a' ! j')" by blast
    show "cell_ok ?s' (heap ?s' a' ! j')"
    proof (cases "a' = a \<and> j' = j")
      case True
      with j len show ?thesis by (auto simp: cell_ok_def)
    next
      case False
      with m have "heap ?s' a' ! j' = heap s a' ! j'" by auto
      with ok show ?thesis by (auto simp: cell_ok_def split: if_splits)
    qed }
  { fix r' assume "r' \<in> dom (bookings ?s')"
    then have d: "r' = r \<or> r' \<in> dom (bookings s)" by (auto split: if_splits)
    show "length r' = 8" using d len I by auto
    show "\<exists>a' \<in> set (seating ?s'). \<exists>j' < length (heap ?s' a'). heap ?s' a' ! j' = r'"
    proof (cases "r' = r")
      case True
      with a j show ?thesis by (intro bexI[of _ a] exI[of _ j]) auto
    next
      case False
      with d have "r' \<in> dom (bookings s)" by simp
      with I obtain a' j' where c: "a' \<in> set (seating s)" "j' < length (heap s a')"
        "heap s a' ! j' = r'" "length r' = 8" by blast
      with free have "\<not> (a' = a \<and> j' = j)" by auto
      with c show ?thesis by (intro bexI[of _ a'] exI[of _ j']) auto
    qed }
  { fix a1 a2 j1 j2
    assume m: "a1 \<in> set (seating ?s')" "a2 \<in> set (seating ?s')"
      "j1 < length (heap ?s' a1)" "j2 < length (heap ?s' a2)"
      and eq: "heap ?s' a1 ! j1 = heap ?s' a2 ! j2 \<and> length (heap ?s' a1 ! j1) = 8"
    from m have m': "a1 \<in> set (seating s)" "a2 \<in> set (seating s)"
      "j1 < length (heap s a1)" "j2 < length (heap s a2)" by (auto split: if_splits)
    have other: "heap s a' ! j' \<noteq> r"
      if "a' \<in> set (seating s)" "j' < length (heap s a')" for a' j'
    proof
      assume "heap s a' ! j' = r"
      moreover from I that have "cell_ok s (heap s a' ! j')" by blast
      ultimately show False using fresh len by (auto simp: cell_ok_def split: if_splits)
    qed
    have both: "a1 = a2 \<and> j1 = j2"
    proof (cases "a1 = a \<and> j1 = j")
      case True
      show ?thesis
      proof (cases "a2 = a \<and> j2 = j")
        case True with \<open>a1 = a \<and> j1 = j\<close> show ?thesis by simp
      next
        case False
        with m' have "heap ?s' a2 ! j2 = heap s a2 ! j2" by auto
        moreover from True j have "heap ?s' a1 ! j1 = r" by auto
        ultimately show ?thesis using eq other[OF m'(2) m'(4)] by simp
      qed
    next
      case False
      with m' have e1: "heap ?s' a1 ! j1 = heap s a1 ! j1" by auto
      show ?thesis
      proof (cases "a2 = a \<and> j2 = j")
        case True
        with j have "heap ?s' a2 ! j2 = r" by auto
        with e1 eq other[OF m'(1) m'(3)] show ?thesis by simp
      next
        case False
        with m' have "heap ?s' a2 ! j2 = heap s a2 ! j2" by auto
        with e1 eq I m' show ?thesis by metis
      qed
    qed
    show "a1 = a2" "j1 = j2" using both by simp_all }
qed

lemma inv_free:
  assumes inv: "grid_ledger_inv s"
    and a: "a \<in> set (seating s)" and j: "j < length (heap s a)"
    and cell: "heap s a ! j = r"
    and len: "length r = 8"
  shows "grid_ledger_inv
           (s\<lparr>bookings := (bookings s)(r := None),
              heap := (heap s)(a := (heap s a)[j := ''F''])\<rparr>)"
  unfolding grid_ledger_inv_def
proof (intro conjI ballI allI impI)
  let ?s' = "s\<lparr>bookings := (bookings s)(r := None),
               heap := (heap s)(a := (heap s a)[j := ''F''])\<rparr>"
  note I = inv[unfolded grid_ledger_inv_def]
  have only: "a' = a \<and> j' = j"
    if "a' \<in> set (seating s)" "j' < length (heap s a')" "heap s a' ! j' = r" for a' j'
    using I that a j cell len by metis
  { fix a' j' assume "a' \<in> set (seating ?s')" "j' < length (heap ?s' a')"
    then have m: "a' \<in> set (seating s)" "j' < length (heap s a')" by (auto split: if_splits)
    with I have ok: "cell_ok s (heap s a' ! j')" by blast
    show "cell_ok ?s' (heap ?s' a' ! j')"
    proof (cases "a' = a \<and> j' = j")
      case True
      with j show ?thesis by (auto simp: cell_ok_def)
    next
      case False
      with m have e: "heap ?s' a' ! j' = heap s a' ! j'" by auto
      from False only[OF m] have "heap s a' ! j' \<noteq> r" by blast
      with ok e show ?thesis by (auto simp: cell_ok_def split: if_splits)
    qed }
  { fix r' assume "r' \<in> dom (bookings ?s')"
    then have d: "r' \<noteq> r" "r' \<in> dom (bookings s)" by (auto split: if_splits)
    with I obtain a' j' where c: "a' \<in> set (seating s)" "j' < length (heap s a')"
      "heap s a' ! j' = r'" "length r' = 8" by blast
    show "length r' = 8" by fact
    from c d cell have "\<not> (a' = a \<and> j' = j)" by auto
    with c show "\<exists>a' \<in> set (seating ?s'). \<exists>j' < length (heap ?s' a'). heap ?s' a' ! j' = r'"
      by (intro bexI[of _ a'] exI[of _ j']) auto }
  { fix a1 a2 j1 j2
    assume m: "a1 \<in> set (seating ?s')" "a2 \<in> set (seating ?s')"
      "j1 < length (heap ?s' a1)" "j2 < length (heap ?s' a2)"
      and eq: "heap ?s' a1 ! j1 = heap ?s' a2 ! j2 \<and> length (heap ?s' a1 ! j1) = 8"
    from m have m': "a1 \<in> set (seating s)" "a2 \<in> set (seating s)"
      "j1 < length (heap s a1)" "j2 < length (heap s a2)" by (auto split: if_splits)
    from eq have l1: "length (heap ?s' a1 ! j1) = 8" by (rule conjunct2)
    from eq have "heap ?s' a1 ! j1 = heap ?s' a2 ! j2" by (rule conjunct1)
    with l1 have l2: "length (heap ?s' a2 ! j2) = 8" by (simp only:)
    have n1: "\<not> (a1 = a \<and> j1 = j)"
    proof
      assume "a1 = a \<and> j1 = j"
      with j have "heap ?s' a1 ! j1 = ''F''" by auto
      then have "length (heap ?s' a1 ! j1) = 1" by (simp only: list.size)
      with l1 show False by (simp only:)
    qed
    have n2: "\<not> (a2 = a \<and> j2 = j)"
    proof
      assume "a2 = a \<and> j2 = j"
      with j have "heap ?s' a2 ! j2 = ''F''" by auto
      then have "length (heap ?s' a2 ! j2) = 1" by (simp only: list.size)
      with l2 show False by (simp only:)
    qed
    from n1 m' have "heap ?s' a1 ! j1 = heap s a1 ! j1" by auto
    moreover from n2 m' have "heap ?s' a2 ! j2 = heap s a2 ! j2" by auto
    ultimately have both: "a1 = a2 \<and> j1 = j2" using eq I m' by metis
    show "a1 = a2" "j1 = j2" using both by simp_all }
qed

lemma inv_init: "grid_ledger_inv init_system"
proof -
  have cells: "heap init_system a ! j \<in> {''F'', ''X'', ''S''}"
    if "j < length (heap init_system a)" for a j
  proof -
    have "set (heap init_system a) \<subseteq> {''F'', ''X'', ''S''}"
      by (auto simp: heap_init_any)
    with that show ?thesis using nth_mem by blast
  qed
  have "length (heap init_system a ! j) \<noteq> 8" if "j < length (heap init_system a)" for a j
    using cells[OF that] by auto
  with cells show ?thesis
    by (auto simp: grid_ledger_inv_def cell_ok_def bookings_init)
qed

lemma book_seat_inv:
  assumes "grid_ledger_inv s"
    and "book_seat rnd pos s row column p f l = Some (res, s', pos')"
  shows "grid_ledger_inv s'"
proof (cases "seat_at s row column = Inr ''F''")
  case False
  with assms show ?thesis by (simp add: book_seat_by_cell)
next
  case True
  with assms(2) obtain r where
    gen: "generate_unique_booking_reference rnd s pos = Some (r, pos')"
    by (auto simp: book_seat_by_cell split: option.splits sum.splits)
  from gen_result[OF gen] gen_length[OF gen] have fresh: "bookings s r = None"
    and len: "length r = 8" by auto
  from set_seat_effect[OF True, of r] obtain a j where
    aj: "a \<in> set (seating s)" "j < length (heap s a)" "heap s a ! j = ''F''"
    and st: "set_seat s row column r = Inr (s\<lparr>heap := (heap s)(a := (heap s a)[j := r])\<rparr>)"
    by blast
  from assms(2) True gen st have "s' = s\<lparr>heap := (heap s)(a := (heap s a)[j := r]),
      bookings := (bookings s)(r \<mapsto> \<lparr>passport_number = p, first_name = f, last_name = l,
         seat_row = row, seat_column = column\<rparr>)\<rparr>"
    by (auto simp: book_seat_by_cell)
  with inv_book[OF assms(1) aj fresh len] show ?thesis by simp
qed

lemma free_seat_inv:
  assumes "grid_ledger_inv s"
    and "free_seat s row column = (res, s')"
  shows "grid_ledger_inv s'"
proof (cases "seat_at s row column")
  case (Inl e)
  with assms show ?thesis by (simp add: free_seat_by_cell)
next
  case (Inr r)
  show ?thesis
  proof (cases "r = ''X'' \<or> r = ''S'' \<or> r = ''F'' \<or> bookings s r = None")
    case True
    with assms Inr show ?thesis by (auto simp: free_seat_by_cell split: if_splits)
  next
    case False
    let ?s0 = "s\<lparr>bookings := (bookings s)(r := None)\<rparr>"
    have c0: "seat_at ?s0 row column = Inr r" using Inr by simp
    from set_seat_effect[OF c0, of "''F''"] obtain a j where
      aj: "a \<in> set (seating s)" "j < length (heap s a)" "heap s a ! j = r"
      and st: "set_seat ?s0 row column ''F'' =
                 Inr (?s0\<lparr>heap := (heap ?s0)(a := (heap ?s0 a)[j := ''F''])\<rparr>)"
      by auto
    from assms(1) False have len: "length r = 8"
      by (auto simp: grid_ledger_inv_def)
    from assms(2) Inr False st have "s' = s\<lparr>bookings := (bookings s)(r := None),
        heap := (heap s)(a := (heap s a)[j := ''F''])\<rparr>"
      by (auto simp: free_seat_by_cell)
    with inv_free[OF assms(1) aj len] show ?thesis by simp
  qed
qed

lemma reachable_inv: "reachable s \<Longrightarrow> grid_ledger_inv s"
  by (induction rule: reachable.induct) (auto intro: inv_init book_seat_inv free_seat_inv)

text \<open>
  Read on the grid: a string that is no marker is a key of the ledger exactly when some
  grid position shows it, and two grid positions that show the same key are the same cell
  of the same row object (they differ only when two row indices hold that object).
\<close>

lemma reachable_ledger_iff_grid:
  assumes "reachable s" and "r \<noteq> ''F''" "r \<noteq> ''X''" "r \<noteq> ''S''"
  shows "r \<in> dom (bookings s) \<longleftrightarrow>
         (\<exists>i < length (seating s). \<exists>j < length (heap s (seating s ! i)).
            heap s (seating s ! i) ! j = r)"
proof
  note I = reachable_inv[OF assms(1), unfolded grid_ledger_inv_def]
  assume "r \<in> dom (bookings s)"
  with I obtain a j where "a \<in> set (seating s)" "j < length (heap s a)" "heap s a ! j = r"
    by blast
  then show "\<exists>i < length (seating s). \<exists>j < length (heap s (seating s ! i)).
      heap s (seating s ! i) ! j = r"
    by (auto simp: in_set_conv_nth)
next
  note I = reachable_inv[OF assms(1), unfolded grid_ledger_inv_def]
  assume "\<exists>i < length (seating s). \<exists>j < length (heap s (seating s ! i)).
      heap s (seating s ! i) ! j = r"
  then obtain i j where "i < length (seating s)" "j < length (heap s (seating s ! i))"
    "heap s (seating s ! i) ! j = r" by blast
  with I have "cell_ok s r" by (metis nth_mem)
  with assms(2-4) show "r \<in> dom (bookings s)" by (auto simp: cell_ok_def)
qed

lemma reachable_one_object_cell:
  assumes "reachable s" and "r \<in> dom (bookings s)"
    and "i < length (seating s)" "j < length (heap s (seating s ! i))"
    and "i' < length (seating s)" "j' < length (heap s (seating s ! i'))"
    and "heap s (seating s ! i) ! j = r" "heap s (seating s ! i') ! j' = r"
  shows "seating s ! i = seating s ! i' \<and> j = j'"
proof -
  note I = reachable_inv[OF assms(1), unfolded grid_ledger_inv_def]
  from I assms(2) have "length r = 8" by blast
  with I assms(3-8) show ?thesis by (metis nth_mem)
qed

subsection \<open>Coordinates beyond both ends of a list, cells that are not free\<close>

text \<open>
  The part of the out-of-bounds behaviour that holds in every state: a row index at or
  beyond the number of rows, or below its negation, has no cell; the validity check
  answers false, the query answers \<open>Invalid\<close>, and booking and freeing change nothing.
\<close>

lemma row_out_of_range:
  assumes "int (length (seating s)) \<le> row \<or> row < - int (length (seating s))"
  shows "seat_at s row column = Inl IndexError"
  using assms by (auto simp: seat_at_def py_index_def)

lemma no_cell_is_invalid:
  assumes "seat_at s row column = Inl e"
  shows "is_seat_valid s (Some row) (Some column) None = Inr False"
    and "check_availability s row column = Invalid"
    and "book_seat rnd pos s row column p f l = Some (SeatUnavailable, s, pos)"
    and "free_seat s row column = (AlreadyFreeOrInvalid, s)"
  using assms
  by (simp_all add: is_seat_valid_seat_at check_availability_invalid book_seat_by_cell
      free_seat_by_cell)

lemma book_seat_not_free:
  "seat_at s row column \<noteq> Inr ''F'' \<Longrightarrow>
     book_seat rnd pos s row column p f l = Some (SeatUnavailable, s, pos)"
  by (simp add: book_seat_by_cell)

lemma free_seat_blocked_or_free:
  assumes "seat_at s row column = Inr v" and "v = ''F'' \<or> v = ''X'' \<or> v = ''S''"
  shows "free_seat s row column = (AlreadyFreeOrInvalid, s)"
  using assms by (auto simp: free_seat_by_cell)

section \<open>The properties\<close>

subsection \<open>Grid and ledger\<close>

text \<open>
  C1. The property: in every reachable state a reference is in the ledger exactly when
  some grid cell holds it, and exactly one grid cell holds it. The constructor puts one
  row object at indices 5 and 6, so the first booking of seat (5, 0) in the constructed
  state writes the reference into that one row and two grid cells hold it: (5, 0) and
  (6, 0). The theorem evaluates \<open>book_seat\<close> there and lists the cells that hold the
  new reference. What does hold in every reachable state is the correspondence on the row
  objects (\<open>reachable_inv\<close>, \<open>reachable_ledger_iff_grid\<close>,
  \<open>reachable_one_object_cell\<close>).
\<close>

theorem booking_row_5_fills_row_6:
  "\<exists>s'. book_seat (\<lambda>i. i) 0 init_system 5 0 ''P123'' ''Ann'' ''Lee'' =
          Some (Booked ''ABCDEFGH'', s', 8) \<and>
        cells_holding s' ''ABCDEFGH'' = [(5, 0), (6, 0)]"
  by (simp add: book_5_0 cells_5_0)

text \<open>
  C10. After construction the rows at indices 5 and 6 are one object. In every reachable
  state the two indices hold the same address, so cell (5, c) and cell (6, c) are equal
  for every column \<open>c\<close> (both raise for a column that has no cell). A successful booking of
  (5, c) makes the query on (6, c) answer \<open>Taken\<close> with the same reference and the same
  passenger; freeing either coordinate leaves both cells free.
\<close>

theorem rows_5_and_6_are_one_object:
  assumes "reachable s"
  shows "seating s ! 5 = seating s ! 6 \<and>
         seat_at s 5 c = seat_at s 6 c \<and>
         (book_seat rnd pos s 5 c p f l = Some (Booked r, s1, pos') \<longrightarrow>
            check_availability s1 6 c = Taken r p f l) \<and>
         (free_seat s 5 c = (Freed, s2) \<longrightarrow>
            seat_at s2 5 c = Inr ''F'' \<and> seat_at s2 6 c = Inr ''F'') \<and>
         (free_seat s 6 c = (Freed, s3) \<longrightarrow>
            seat_at s3 5 c = Inr ''F'' \<and> seat_at s3 6 c = Inr ''F'')"
proof (intro conjI impI)
  show "seating s ! 5 = seating s ! 6"
    by (simp add: reachable_seating[OF assms])
  show "seat_at s 5 c = seat_at s 6 c"
    using assms by (rule reachable_rows_5_6)
next
  assume b: "book_seat rnd pos s 5 c p f l = Some (Booked r, s1, pos')"
  from assms b have "reachable s1" by (rule reachable.booked)
  then have "seat_at s1 6 c = seat_at s1 5 c" by (simp add: reachable_rows_5_6)
  with book_seat_success[OF b] reference_not_marker[of r]
  show "check_availability s1 6 c = Taken r p f l"
    using check_availability_taken[of s1 6 c r] by simp
next
  assume fr: "free_seat s 5 c = (Freed, s2)"
  from assms fr have "reachable s2" by (rule reachable.freed)
  then have "seat_at s2 6 c = seat_at s2 5 c" by (simp add: reachable_rows_5_6)
  with free_seat_success[OF fr]
  show "seat_at s2 5 c = Inr ''F''" "seat_at s2 6 c = Inr ''F''" by simp_all
next
  assume fr: "free_seat s 6 c = (Freed, s3)"
  from assms fr have "reachable s3" by (rule reachable.freed)
  then have "seat_at s3 5 c = seat_at s3 6 c" by (simp add: reachable_rows_5_6)
  with free_seat_success[OF fr]
  show "seat_at s3 5 c = Inr ''F''" "seat_at s3 6 c = Inr ''F''" by simp_all
qed

theorem rows_5_and_6_are_one_object_witness:
  "reachable init_system \<and>
   seating init_system ! 5 = seating init_system ! 6 \<and>
   book_seat (\<lambda>i. i) 0 init_system 5 0 ''P123'' ''Ann'' ''Lee'' =
     Some (Booked ''ABCDEFGH'',
           init_system
             \<lparr>heap := (heap init_system)(8 := [''ABCDEFGH'', ''F'', ''S'', ''S'']),
              bookings := [''ABCDEFGH'' \<mapsto>
                 \<lparr>passport_number = ''P123'', first_name = ''Ann'', last_name = ''Lee'',
                  seat_row = 5, seat_column = 0\<rparr>]\<rparr>,
           8) \<and>
   check_availability
     (init_system
        \<lparr>heap := (heap init_system)(8 := [''ABCDEFGH'', ''F'', ''S'', ''S'']),
         bookings := [''ABCDEFGH'' \<mapsto>
            \<lparr>passport_number = ''P123'', first_name = ''Ann'', last_name = ''Lee'',
             seat_row = 5, seat_column = 0\<rparr>]\<rparr>) 6 0 =
     Taken ''ABCDEFGH'' ''P123'' ''Ann'' ''Lee'' \<and>
   reachable
     (init_system
        \<lparr>heap := (heap init_system)(8 := [''ABCDEFGH'', ''F'', ''S'', ''S'']),
         bookings := [''ABCDEFGH'' \<mapsto>
            \<lparr>passport_number = ''P123'', first_name = ''Ann'', last_name = ''Lee'',
             seat_row = 5, seat_column = 0\<rparr>]\<rparr>) \<and>
   free_seat
     (init_system
        \<lparr>heap := (heap init_system)(8 := [''ABCDEFGH'', ''F'', ''S'', ''S'']),
         bookings := [''ABCDEFGH'' \<mapsto>
            \<lparr>passport_number = ''P123'', first_name = ''Ann'', last_name = ''Lee'',
             seat_row = 5, seat_column = 0\<rparr>]\<rparr>) 5 0 =
     (Freed,
      init_system
        \<lparr>heap := (heap init_system)(8 := [''F'', ''F'', ''S'', ''S'']),
         bookings := Map.empty\<rparr>) \<and>
   free_seat
     (init_system
        \<lparr>heap := (heap init_system)(8 := [''ABCDEFGH'', ''F'', ''S'', ''S'']),
         bookings := [''ABCDEFGH'' \<mapsto>
            \<lparr>passport_number = ''P123'', first_name = ''Ann'', last_name = ''Lee'',
             seat_row = 5, seat_column = 0\<rparr>]\<rparr>) 6 0 =
     (Freed,
      init_system
        \<lparr>heap := (heap init_system)(8 := [''F'', ''F'', ''S'', ''S'']),
         bookings := Map.empty\<rparr>) \<and>
   seat_at
     (init_system
        \<lparr>heap := (heap init_system)(8 := [''F'', ''F'', ''S'', ''S'']),
         bookings := Map.empty\<rparr>) 5 0 = Inr ''F'' \<and>
   seat_at
     (init_system
        \<lparr>heap := (heap init_system)(8 := [''F'', ''F'', ''S'', ''S'']),
         bookings := Map.empty\<rparr>) 6 0 = Inr ''F''"
proof -
  let ?b = "\<lparr>passport_number = ''P123'', first_name = ''Ann'', last_name = ''Lee'',
             seat_row = 5, seat_column = 0\<rparr>"
  let ?s1 = "init_system
        \<lparr>heap := (heap init_system)(8 := [''ABCDEFGH'', ''F'', ''S'', ''S'']),
         bookings := [''ABCDEFGH'' \<mapsto> ?b]\<rparr>"
  let ?s2 = "init_system
        \<lparr>heap := (heap init_system)(8 := [''F'', ''F'', ''S'', ''S'']),
         bookings := Map.empty\<rparr>"
  have r0: "reachable init_system" by (rule reachable.constructed)
  have bk: "book_seat (\<lambda>i. i) 0 init_system 5 0 ''P123'' ''Ann'' ''Lee'' =
      Some (Booked ''ABCDEFGH'', ?s1, 8)" by (rule book_5_0)
  have r1: "reachable ?s1" by (rule reachable.booked[OF r0 bk])
  have f5: "free_seat ?s1 5 0 = (Freed, ?s2)" and f6: "free_seat ?s1 6 0 = (Freed, ?s2)"
    by (rule free_5_0_and_6_0)+
  from rows_5_and_6_are_one_object[OF r0, of 0 "\<lambda>i. i" 0 "''P123''" "''Ann''" "''Lee''"
      "''ABCDEFGH''" ?s1 8] bk
  have a: "seating init_system ! 5 = seating init_system ! 6"
    and t: "check_availability ?s1 6 0 = Taken ''ABCDEFGH'' ''P123'' ''Ann'' ''Lee''"
    by blast+
  from rows_5_and_6_are_one_object[OF r1, of 0 _ _ _ _ _ _ _ _ ?s2 ?s2] f5 f6
  have c: "seat_at ?s2 5 0 = Inr ''F''" "seat_at ?s2 6 0 = Inr ''F''"
    by blast+
  from r0 a bk t r1 f5 f6 c show ?thesis by (intro conjI)
qed

subsection \<open>Seat addresses\<close>

text \<open>
  C2. The property: for every pair outside the grid, negative components included, the
  validity check answers false and the query answers \<open>Invalid\<close>. Python reads a negative
  index from the end of the list and \<open>is_seat_valid\<close> catches IndexError only, so column
  \<open>-1\<close> of row 0 is the cell (0, 3): in the constructed state the check answers true and
  the query answers \<open>Available\<close>. The menu loop produces this column from the input
  \<open>0\<close>. The theorem evaluates both calls.
\<close>

theorem negative_column_is_valid:
  "is_seat_valid init_system (Some 0) (Some (-1)) None = Inr True \<and>
   check_availability init_system 0 (-1) = Available"
  by (simp add: is_seat_valid_seat_at check_availability_free seat_at_init)

text \<open>
  C9. Called with two integers, \<open>is_seat_valid\<close> returns a boolean and raises nothing,
  whatever the integers and whatever the state: the only exception the lookup can raise is
  IndexError, which is caught.
\<close>

theorem is_seat_valid_returns_bool:
  "\<exists>b. is_seat_valid s (Some row) (Some column) None = Inr b"
  by (cases "seat_at s row column") (auto simp: is_seat_valid_seat_at)

theorem is_seat_valid_returns_bool_witness:
  "is_seat_valid init_system (Some (- 1)) (Some 9) None = Inr False"
  using is_seat_valid_returns_bool[of init_system "- 1" 9]
  by (simp add: is_seat_valid_seat_at seat_at_def py_index_def seating_init heap_init)

subsection \<open>Booking\<close>

text \<open>
  C3. The property: booking a seat that is booked, blocked or out of bounds returns
  \<open>SeatUnavailable\<close> and changes neither grid nor ledger. It holds whenever the lookup does
  not give a free cell (\<open>book_seat_not_free\<close>), but the lookup of a negative index wraps:
  booking (0, -1) in the constructed state succeeds, writes the reference into cell
  (0, 3) and records a booking with column \<open>-1\<close>. The theorem evaluates that call. The
  defect is the one of C2.
\<close>

theorem negative_column_is_booked:
  "book_seat (\<lambda>i. i) 0 init_system 0 (-1) ''P123'' ''Ann'' ''Lee'' =
     Some (Booked ''ABCDEFGH'',
           init_system
             \<lparr>heap := (heap init_system)(0 := [''F'', ''F'', ''F'', ''ABCDEFGH'']),
              bookings := [''ABCDEFGH'' \<mapsto>
                 \<lparr>passport_number = ''P123'', first_name = ''Ann'', last_name = ''Lee'',
                  seat_row = 0, seat_column = - 1\<rparr>]\<rparr>,
           8)"
  by (simp add: book_seat_by_cell seat_at_init gen_id_init set_seat_def py_index_def
      seating_init heap_init bookings_init)

text \<open>
  C4. Booking a seat whose cell is free succeeds, for any passenger strings, and the query
  on the same coordinates right after answers \<open>Taken\<close> with the reference of the booking
  and exactly the passenger fields supplied; the ledger holds these fields under the
  reference. The cell is free when the lookup at the coordinates gives \<open>''F''\<close>, which
  covers every in-bounds free seat. The booking returns provided the random source draws,
  at some attempt \<open>n\<close>, a string that is not a key of the ledger: the loop of the generator
  has no other exit.
\<close>

theorem book_free_seat_then_check:
  assumes "seat_at s row column = Inr ''F''"
    and "bookings s (random_reference rnd (pos + 8 * n)) = None"
  shows "\<exists>r s' pos'.
           book_seat rnd pos s row column p f l = Some (Booked r, s', pos') \<and>
           bookings s' r =
             Some \<lparr>passport_number = p, first_name = f, last_name = l,
                   seat_row = row, seat_column = column\<rparr> \<and>
           check_availability s' row column = Taken r p f l"
proof -
  from gen_terminates[OF assms(2)] obtain r pos' where
    gen: "generate_unique_booking_reference rnd s pos = Some (r, pos')" by blast
  then have len: "length r = 8" by (rule gen_length)
  from set_seat_of_seat_at[OF assms(1), of r] obtain s1 where
    s1: "set_seat s row column r = Inr s1" "seat_at s1 row column = Inr r" by blast
  let ?b = "\<lparr>passport_number = p, first_name = f, last_name = l,
             seat_row = row, seat_column = column\<rparr>"
  let ?s' = "s1\<lparr>bookings := (bookings s1)(r \<mapsto> ?b)\<rparr>"
  have book: "book_seat rnd pos s row column p f l = Some (Booked r, ?s', pos')"
    using assms(1) gen s1(1) by (simp add: book_seat_by_cell)
  have cell: "seat_at ?s' row column = Inr r" using s1(2) by simp
  have "bookings ?s' r = Some ?b" by simp
  from check_availability_taken[OF cell _ _ _ this] reference_not_marker[OF len]
  have "check_availability ?s' row column = Taken r p f l" by simp
  with book show ?thesis by (intro exI[of _ r] exI[of _ ?s'] exI[of _ pos']) simp
qed

theorem book_free_seat_then_check_witness:
  "seat_at (init_system
        \<lparr>heap := (heap init_system)(0 := [''F'', ''F'', ''F'', ''ABCDEFGH'']),
         bookings := [''ABCDEFGH'' \<mapsto>
            \<lparr>passport_number = ''P123'', first_name = ''Ann'', last_name = ''Lee'',
             seat_row = 0, seat_column = 3\<rparr>]\<rparr>) 0 0 = Inr ''F'' \<and>
   random_reference (\<lambda>i. if i < 8 then i else i + 1) (0 + 8 * 1) = ''JKLMNOPQ'' \<and>
   (\<exists>r s' pos'.
      book_seat (\<lambda>i. if i < 8 then i else i + 1) 0
        (init_system
          \<lparr>heap := (heap init_system)(0 := [''F'', ''F'', ''F'', ''ABCDEFGH'']),
           bookings := [''ABCDEFGH'' \<mapsto>
              \<lparr>passport_number = ''P123'', first_name = ''Ann'', last_name = ''Lee'',
               seat_row = 0, seat_column = 3\<rparr>]\<rparr>) 0 0 ''Q456'' ''Bob'' ''Ray'' =
        Some (Booked r, s', pos') \<and>
      bookings s' r =
        Some \<lparr>passport_number = ''Q456'', first_name = ''Bob'', last_name = ''Ray'',
              seat_row = 0, seat_column = 0\<rparr> \<and>
      check_availability s' 0 0 = Taken r ''Q456'' ''Bob'' ''Ray'')"
proof -
  let ?b = "\<lparr>passport_number = ''P123'', first_name = ''Ann'', last_name = ''Lee'',
             seat_row = 0, seat_column = 3\<rparr>"
  let ?s = "init_system
        \<lparr>heap := (heap init_system)(0 := [''F'', ''F'', ''F'', ''ABCDEFGH'']),
         bookings := [''ABCDEFGH'' \<mapsto> ?b]\<rparr>"
  let ?rnd = "\<lambda>i::nat. if i < 8 then i else i + 1"
  have c: "seat_at ?s 0 0 = Inr ''F''"
    by (simp add: seat_at_def py_index_def seating_init)
  have rr: "random_reference ?rnd (0 + 8 * 1) = ''JKLMNOPQ''"
    by (simp add: random_reference_skip)
  have fresh: "bookings ?s (random_reference ?rnd (0 + 8 * 1)) = None"
    by (simp add: random_reference_skip)
  from book_free_seat_then_check[OF c fresh, of "''Q456''" "''Bob''" "''Ray''"] c rr
  show ?thesis by simp
qed

subsection \<open>Freeing\<close>

text \<open>
  C5. Freeing a seat whose cell holds a reference that is a key of the ledger returns
  \<open>Freed\<close>, removes exactly that key from the ledger and makes the cell free, in the one
  call; the query on the seat then answers \<open>Available\<close>.
\<close>

theorem free_seat_booked:
  assumes "seat_at s row column = Inr r"
    and "r \<noteq> ''F''" "r \<noteq> ''X''" "r \<noteq> ''S''"
    and "bookings s r = Some b"
  shows "\<exists>s'. free_seat s row column = (Freed, s') \<and>
              bookings s' = (bookings s)(r := None) \<and>
              seat_at s' row column = Inr ''F'' \<and>
              check_availability s' row column = Available"
proof -
  let ?s0 = "s\<lparr>bookings := (bookings s)(r := None)\<rparr>"
  have "seat_at ?s0 row column = Inr r" using assms(1) by simp
  from set_seat_of_seat_at[OF this, of "''F''"] obtain s2 where
    s2: "set_seat ?s0 row column ''F'' = Inr s2" "seat_at s2 row column = Inr ''F''"
      "bookings s2 = bookings ?s0" by auto
  have "free_seat s row column = (Freed, s2)"
    using assms s2(1) by (simp add: free_seat_by_cell)
  moreover have "check_availability s2 row column = Available"
    using s2(2) by (rule check_availability_free)
  ultimately show ?thesis using s2 by simp
qed

theorem free_seat_booked_witness:
  "seat_at (init_system
        \<lparr>heap := (heap init_system)(0 := [''F'', ''F'', ''F'', ''ABCDEFGH'']),
         bookings := [''ABCDEFGH'' \<mapsto>
            \<lparr>passport_number = ''P123'', first_name = ''Ann'', last_name = ''Lee'',
             seat_row = 0, seat_column = 3\<rparr>]\<rparr>) 0 3 = Inr ''ABCDEFGH'' \<and>
   (\<exists>s'. free_seat (init_system
        \<lparr>heap := (heap init_system)(0 := [''F'', ''F'', ''F'', ''ABCDEFGH'']),
         bookings := [''ABCDEFGH'' \<mapsto>
            \<lparr>passport_number = ''P123'', first_name = ''Ann'', last_name = ''Lee'',
             seat_row = 0, seat_column = 3\<rparr>]\<rparr>) 0 3 = (Freed, s') \<and>
      bookings s' ''ABCDEFGH'' = None \<and>
      seat_at s' 0 3 = Inr ''F'' \<and>
      check_availability s' 0 3 = Available)"
proof -
  let ?b = "\<lparr>passport_number = ''P123'', first_name = ''Ann'', last_name = ''Lee'',
             seat_row = 0, seat_column = 3\<rparr>"
  let ?s = "init_system
        \<lparr>heap := (heap init_system)(0 := [''F'', ''F'', ''F'', ''ABCDEFGH'']),
         bookings := [''ABCDEFGH'' \<mapsto> ?b]\<rparr>"
  have c: "seat_at ?s 0 3 = Inr ''ABCDEFGH''"
    by (simp add: seat_at_def py_index_def seating_init)
  have b: "bookings ?s ''ABCDEFGH'' = Some ?b" by simp
  from free_seat_booked[OF c _ _ _ b] obtain s' where
    "free_seat ?s 0 3 = (Freed, s')" "bookings s' = (bookings ?s)(''ABCDEFGH'' := None)"
    "seat_at s' 0 3 = Inr ''F''" "check_availability s' 0 3 = Available" by auto
  with c show ?thesis by auto
qed

text \<open>
  C6. The property: freeing an out-of-bounds address, a blocked cell or a free cell
  returns \<open>AlreadyFreeOrInvalid\<close> and changes nothing. It holds when the lookup raises or
  gives a blocked or free cell (\<open>no_cell_is_invalid\<close>, \<open>free_seat_blocked_or_free\<close>), but
  the lookup of a negative index wraps: after seat (0, 3) is booked, freeing (0, -1)
  returns \<open>Freed\<close>, clears cell (0, 3) and deletes the booking. The theorem evaluates the
  booking and the call. The defect is the one of C2.
\<close>

theorem negative_column_is_freed:
  "book_seat (\<lambda>i. i) 0 init_system 0 3 ''P123'' ''Ann'' ''Lee'' =
     Some (Booked ''ABCDEFGH'',
           init_system
             \<lparr>heap := (heap init_system)(0 := [''F'', ''F'', ''F'', ''ABCDEFGH'']),
              bookings := [''ABCDEFGH'' \<mapsto>
                 \<lparr>passport_number = ''P123'', first_name = ''Ann'', last_name = ''Lee'',
                  seat_row = 0, seat_column = 3\<rparr>]\<rparr>,
           8) \<and>
   free_seat
     (init_system
        \<lparr>heap := (heap init_system)(0 := [''F'', ''F'', ''F'', ''ABCDEFGH'']),
         bookings := [''ABCDEFGH'' \<mapsto>
            \<lparr>passport_number = ''P123'', first_name = ''Ann'', last_name = ''Lee'',
             seat_row = 0, seat_column = 3\<rparr>]\<rparr>) 0 (- 1) =
     (Freed,
      init_system
        \<lparr>heap := (heap init_system)(0 := [''F'', ''F'', ''F'', ''F'']),
         bookings := Map.empty\<rparr>)"
  by (simp add: book_0_3 free_seat_by_cell seat_at_def set_seat_def py_index_def
      seating_init heap_init)

text \<open>
  C7. When the cell holds a reference that is not a key of the ledger, \<open>free_seat\<close>
  returns \<open>BookingNotFound\<close> and leaves the state, the grid cell included, as it was.
\<close>

theorem free_seat_missing_booking:
  assumes "seat_at s row column = Inr r"
    and "r \<noteq> ''F''" "r \<noteq> ''X''" "r \<noteq> ''S''"
    and "bookings s r = None"
  shows "free_seat s row column = (BookingNotFound, s)"
  using assms by (simp add: free_seat_by_cell)

theorem free_seat_missing_booking_witness:
  "seat_at (init_system\<lparr>heap := (heap init_system)(0 := [''ZZZZZZZZ'', ''F'', ''F'', ''F''])\<rparr>)
     0 0 = Inr ''ZZZZZZZZ'' \<and>
   bookings (init_system\<lparr>heap := (heap init_system)(0 := [''ZZZZZZZZ'', ''F'', ''F'', ''F''])\<rparr>)
     ''ZZZZZZZZ'' = None \<and>
   free_seat (init_system\<lparr>heap := (heap init_system)(0 := [''ZZZZZZZZ'', ''F'', ''F'', ''F''])\<rparr>)
     0 0 =
     (BookingNotFound,
      init_system\<lparr>heap := (heap init_system)(0 := [''ZZZZZZZZ'', ''F'', ''F'', ''F''])\<rparr>)"
proof -
  let ?s = "init_system\<lparr>heap := (heap init_system)(0 := [''ZZZZZZZZ'', ''F'', ''F'', ''F''])\<rparr>"
  have c: "seat_at ?s 0 0 = Inr ''ZZZZZZZZ''"
    by (simp add: seat_at_def py_index_def seating_init)
  have b: "bookings ?s ''ZZZZZZZZ'' = None" by (simp add: bookings_init)
  from free_seat_missing_booking[OF c _ _ _ b] c b show ?thesis by simp
qed

subsection \<open>References\<close>

text \<open>
  C8. A reference the generator returns has exactly 8 characters, all of the alphabet
  A to Z and 0 to 9, and is not a key of the ledger at the call. Hence the references of
  \<open>n\<close> calls in sequence, each recorded before the next call, are \<open>n\<close> pairwise distinct
  strings, and each is well formed and was not a key at the start.
\<close>

theorem references_well_formed_fresh_distinct:
  "(generate_unique_booking_reference rnd s pos = Some (reference, pos') \<longrightarrow>
      length reference = 8 \<and> set reference \<subseteq> set alphabet \<and>
      reference \<notin> dom (bookings s)) \<and>
   (generate_sequence rnd n b s pos = Some (refs, s', pos'') \<longrightarrow>
      length refs = n \<and> distinct refs \<and>
      (\<forall>r \<in> set refs. length r = 8 \<and> set r \<subseteq> set alphabet \<and> r \<notin> dom (bookings s)))"
proof (intro conjI impI)
  assume g: "generate_unique_booking_reference rnd s pos = Some (reference, pos')"
  from gen_result[OF g] obtain k where
    "bookings s reference = None" "reference = random_reference rnd (pos + 8 * k)" by blast
  then show "length reference = 8" "set reference \<subseteq> set alphabet"
    "reference \<notin> dom (bookings s)"
    by (auto simp: length_random_reference set_random_reference[THEN subsetD])
next
  assume q: "generate_sequence rnd n b s pos = Some (refs, s', pos'')"
  from generate_sequence_refs[OF q] show "length refs = n" "distinct refs"
    "\<forall>r \<in> set refs. length r = 8 \<and> set r \<subseteq> set alphabet \<and> r \<notin> dom (bookings s)"
    by (auto simp: domIff)
qed

theorem references_well_formed_fresh_distinct_witness:
  "generate_unique_booking_reference (\<lambda>i. if i < 16 then 0 else i) init_system 0 =
     Some (''AAAAAAAA'', 8) \<and>
   length ''AAAAAAAA'' = 8 \<and> set ''AAAAAAAA'' \<subseteq> set alphabet \<and>
   ''AAAAAAAA'' \<notin> dom (bookings init_system) \<and>
   generate_sequence (\<lambda>i. if i < 16 then 0 else i) 2
     \<lparr>passport_number = ''P123'', first_name = ''Ann'', last_name = ''Lee'',
      seat_row = 0, seat_column = 0\<rparr> init_system 0 =
     Some ([''AAAAAAAA'', ''QRSTUVWX''],
           init_system\<lparr>bookings :=
             [''AAAAAAAA'' \<mapsto>
                \<lparr>passport_number = ''P123'', first_name = ''Ann'', last_name = ''Lee'',
                 seat_row = 0, seat_column = 0\<rparr>,
              ''QRSTUVWX'' \<mapsto>
                \<lparr>passport_number = ''P123'', first_name = ''Ann'', last_name = ''Lee'',
                 seat_row = 0, seat_column = 0\<rparr>]\<rparr>, 24) \<and>
   length [''AAAAAAAA'', ''QRSTUVWX''] = (2::nat) \<and>
   distinct [''AAAAAAAA'', ''QRSTUVWX''] \<and>
   set ''QRSTUVWX'' \<subseteq> set alphabet \<and>
   ''QRSTUVWX'' \<notin> dom (bookings init_system)"
proof -
  let ?rnd = "\<lambda>i::nat. if i < 16 then 0 else i"
  let ?b = "\<lparr>passport_number = ''P123'', first_name = ''Ann'', last_name = ''Lee'',
             seat_row = 0, seat_column = 0\<rparr>"
  let ?s' = "init_system\<lparr>bookings := [''AAAAAAAA'' \<mapsto> ?b, ''QRSTUVWX'' \<mapsto> ?b]\<rparr>"
  note g = gen_repeat_0
  note q = sequence_repeat[of ?b]
  from references_well_formed_fresh_distinct
    [of ?rnd init_system 0 "''AAAAAAAA''" 8 2 ?b "[''AAAAAAAA'', ''QRSTUVWX'']" ?s' 24] g q
  show ?thesis by simp
qed

end
